theory Spec2Isabelle
  imports Complex_Main "HOL-Library.Sublist"
begin

section \<open>Python strings\<close>

text \<open>
  A Python \<open>str\<close> is a sequence of code points. The model covers texts whose code points
  lie in 0..255: one \<open>char\<close> per code point, so \<open>length\<close> is Python's \<open>len\<close> and
  \<open>take n\<close> is the slice \<open>[:n]\<close>.
\<close>

definition code_point :: "char \<Rightarrow> nat" where
  "code_point c = of_char c"

definition in_range :: "nat \<Rightarrow> nat \<Rightarrow> char \<Rightarrow> bool" where
  "in_range lo hi c = (lo \<le> code_point c \<and> code_point c \<le> hi)"

text \<open>\<open>str.lower\<close> on one code point below 256: A-Z and the upper-case letters of Latin-1.\<close>

definition lower_char :: "char \<Rightarrow> char" where
  "lower_char c =
     (if in_range 65 90 c \<or> (in_range 192 222 c \<and> code_point c \<noteq> 215)
      then char_of (code_point c + 32) else c)"

definition lower :: "string \<Rightarrow> string" where
  "lower s = map lower_char s"

text \<open>\<open>str.isspace\<close> on one code point below 256.\<close>

definition is_space :: "char \<Rightarrow> bool" where
  "is_space c = (in_range 9 13 c \<or> in_range 28 32 c \<or> code_point c = 133 \<or> code_point c = 160)"

text \<open>\<open>p in t\<close> on strings: \<open>p\<close> occurs in \<open>t\<close> as a contiguous substring.\<close>

fun str_in :: "string \<Rightarrow> string \<Rightarrow> bool" where
  "str_in p [] = (p = [])"
| "str_in p (c # cs) = (prefix p (c # cs) \<or> str_in p cs)"

text \<open>\<open>s.split()\<close>: the maximal runs of non-whitespace characters.\<close>

fun split_acc :: "string \<Rightarrow> string \<Rightarrow> string list" where
  "split_acc cur [] = (if cur = [] then [] else [cur])"
| "split_acc cur (c # cs) =
     (if is_space c then (if cur = [] then split_acc [] cs else cur # split_acc [] cs)
      else split_acc (cur @ [c]) cs)"

definition split :: "string \<Rightarrow> string list" where
  "split s = split_acc [] s"

text \<open>\<open>sep.join(xs)\<close>.\<close>

fun join :: "string \<Rightarrow> string list \<Rightarrow> string" where
  "join sep [] = []"
| "join sep [x] = x"
| "join sep (x # y # ys) = x @ sep @ join sep (y # ys)"

text \<open>
  \<open>s.replace(old, new)\<close>: the non-overlapping occurrences of \<open>old\<close>, found from the left,
  are replaced by \<open>new\<close>; an empty \<open>old\<close> matches before every character and at the end.
\<close>

fun replace_scan :: "string \<Rightarrow> string \<Rightarrow> nat \<Rightarrow> string \<Rightarrow> string" where
  "replace_scan old new skip [] = []"
| "replace_scan old new (Suc k) (c # cs) = replace_scan old new k cs"
| "replace_scan old new 0 (c # cs) =
     (if prefix old (c # cs) then new @ replace_scan old new (length old - 1) cs
      else c # replace_scan old new 0 cs)"

definition replace :: "string \<Rightarrow> string \<Rightarrow> string \<Rightarrow> string" where
  "replace s old new =
     (if old = [] then new @ concat (map (\<lambda>c. c # new) s) else replace_scan old new 0 s)"

section \<open>The regular expressions of the PII check\<close>

text \<open>
  The three patterns of \<open>OutputGuardrail._check_pii\<close> are sequences of greedy repetitions of
  a character class, word boundaries and one-character negative look-arounds. They have no
  groups, so \<open>re.findall\<close> returns the matched substrings. The matcher below backtracks as
  Python's does: each repetition tries its longest count first.
\<close>

datatype item =
    Rep "char \<Rightarrow> bool" nat "nat option"
  | WordBoundary
  | NotBehind "char \<Rightarrow> bool"
  | NotAhead "char \<Rightarrow> bool"

text \<open>\<open>\d\<close>, \<open>\w\<close> and \<open>\s\<close> of a \<open>str\<close> pattern, on code points below 256.\<close>

definition is_digit :: "char \<Rightarrow> bool" where
  "is_digit c = in_range 48 57 c"

definition is_alpha :: "char \<Rightarrow> bool" where
  "is_alpha c = (in_range 65 90 c \<or> in_range 97 122 c)"

definition is_word :: "char \<Rightarrow> bool" where
  "is_word c =
     (is_digit c \<or> is_alpha c \<or> c = CHR ''_''
      \<or> code_point c \<in> {170, 178, 179, 181, 185, 186, 188, 189, 190}
      \<or> in_range 192 214 c \<or> in_range 216 246 c \<or> in_range 248 255 c)"

definition is_word_opt :: "char option \<Rightarrow> bool" where
  "is_word_opt x = (case x of None \<Rightarrow> False | Some c \<Rightarrow> is_word c)"

definition at_boundary :: "char option \<Rightarrow> char option \<Rightarrow> bool" where
  "at_boundary prev nxt = (is_word_opt prev \<noteq> is_word_opt nxt)"

definition head :: "string \<Rightarrow> char option" where
  "head s = (case s of [] \<Rightarrow> None | c # _ \<Rightarrow> Some c)"

fun last_opt :: "char option \<Rightarrow> string \<Rightarrow> char option" where
  "last_opt prev [] = prev"
| "last_opt prev (c # cs) = last_opt (Some c) cs"

fun first_some :: "(nat \<Rightarrow> 'a option) \<Rightarrow> nat list \<Rightarrow> 'a option" where
  "first_some f [] = None"
| "first_some f (k # ks) = (case f k of Some r \<Rightarrow> Some r | None \<Rightarrow> first_some f ks)"

definition max_count :: "(char \<Rightarrow> bool) \<Rightarrow> nat option \<Rightarrow> string \<Rightarrow> nat" where
  "max_count cls hi s =
     (case hi of None \<Rightarrow> length (takeWhile cls s)
      | Some h \<Rightarrow> min h (length (takeWhile cls s)))"

text \<open>
  \<open>match_items its prev s\<close> matches the pattern at the start of \<open>s\<close>, where \<open>prev\<close> is the
  character before it (\<open>None\<close> at the start of the text), and returns the matched text.
\<close>

fun match_items :: "item list \<Rightarrow> char option \<Rightarrow> string \<Rightarrow> string option" where
  "match_items [] prev s = Some []"
| "match_items (WordBoundary # its) prev s =
     (if at_boundary prev (head s) then match_items its prev s else None)"
| "match_items (NotBehind cls # its) prev s =
     (case prev of
        None \<Rightarrow> match_items its prev s
      | Some c \<Rightarrow> if cls c then None else match_items its prev s)"
| "match_items (NotAhead cls # its) prev s =
     (case head s of
        None \<Rightarrow> match_items its prev s
      | Some c \<Rightarrow> if cls c then None else match_items its prev s)"
| "match_items (Rep cls lo hi # its) prev s =
     first_some
       (\<lambda>k. map_option (\<lambda>m. take k s @ m)
              (match_items its (last_opt prev (take k s)) (drop k s)))
       (rev [lo ..< Suc (max_count cls hi s)])"

text \<open>
  The scan of \<open>re.findall\<close>: try a match at each position from the left; after a match go on
  behind it (\<open>skip\<close> counts the characters of the match still to pass).
\<close>

fun scan :: "item list \<Rightarrow> nat \<Rightarrow> char option \<Rightarrow> string \<Rightarrow> string list" where
  "scan its skip prev [] =
     (if skip = 0 then (case match_items its prev [] of None \<Rightarrow> [] | Some m \<Rightarrow> [m]) else [])"
| "scan its (Suc k) prev (c # cs) = scan its k (Some c) cs"
| "scan its 0 prev (c # cs) =
     (case match_items its prev (c # cs) of
        None \<Rightarrow> scan its 0 (Some c) cs
      | Some m \<Rightarrow> m # scan its (length m - 1) (Some c) cs)"

definition findall :: "item list \<Rightarrow> string \<Rightarrow> string list" where
  "findall its text = scan its 0 None text"

definition one :: "char \<Rightarrow> char \<Rightarrow> bool" where
  "one a c = (c = a)"

text \<open>\<open>\b[A-Za-z0-9._%+-]+@[A-Za-z0-9.-]+\.[A-Z|a-z]{2,}\b\<close>\<close>

definition email_local :: "char \<Rightarrow> bool" where
  "email_local c = (is_alpha c \<or> is_digit c \<or> c \<in> set ''._%+-'')"

definition email_domain :: "char \<Rightarrow> bool" where
  "email_domain c = (is_alpha c \<or> is_digit c \<or> c \<in> set ''.-'')"

definition email_tld :: "char \<Rightarrow> bool" where
  "email_tld c = (is_alpha c \<or> c = CHR ''|'')"

definition email_pattern :: "item list" where
  "email_pattern =
     [WordBoundary, Rep email_local 1 None, Rep (one CHR ''@'') 1 (Some 1),
      Rep email_domain 1 None, Rep (one CHR ''.'') 1 (Some 1), Rep email_tld 2 None,
      WordBoundary]"

text \<open>\<open>(?<!/)(?<!\.)\b\d{3}[-\s]\d{3}[-\s]\d{4}\b(?!/)\<close>\<close>

definition phone_sep :: "char \<Rightarrow> bool" where
  "phone_sep c = (c = CHR ''-'' \<or> is_space c)"

definition phone_pattern :: "item list" where
  "phone_pattern =
     [NotBehind (one CHR ''/''), NotBehind (one CHR ''.''), WordBoundary,
      Rep is_digit 3 (Some 3), Rep phone_sep 1 (Some 1), Rep is_digit 3 (Some 3),
      Rep phone_sep 1 (Some 1), Rep is_digit 4 (Some 4), WordBoundary,
      NotAhead (one CHR ''/'')]"

text \<open>\<open>\b\d{3}-\d{2}-\d{4}\b\<close>\<close>

definition ssn_pattern :: "item list" where
  "ssn_pattern =
     [WordBoundary, Rep is_digit 3 (Some 3), Rep (one CHR ''-'') 1 (Some 1),
      Rep is_digit 2 (Some 2), Rep (one CHR ''-'') 1 (Some 1), Rep is_digit 4 (Some 4),
      WordBoundary]"

section \<open>Violations, verdicts and guardrail objects\<close>

text \<open>
  A violation is a dictionary with the keys \<open>validator\<close>, \<open>reason\<close>, \<open>severity\<close> and,
  depending on the check, \<open>pii_type\<close> and \<open>matches\<close>, \<open>category\<close> or \<open>bias_type\<close>.
\<close>

record violation =
  validator :: string
  reason :: string
  severity :: string
  pii_type :: "string option"
  matches :: "string list option"
  category :: "string option"
  bias_type :: "string option"

definition basic_violation :: "string \<Rightarrow> string \<Rightarrow> string \<Rightarrow> violation" where
  "basic_violation v r s =
     \<lparr>validator = v, reason = r, severity = s, pii_type = None, matches = None,
      category = None, bias_type = None\<rparr>"

text \<open>
  The dictionary returned by \<open>validate\<close>; \<open>sanitized\<close> is the key \<open>sanitized_input\<close> of
  the input guardrail and \<open>sanitized_output\<close> of the output guardrail.
\<close>

record verdict =
  valid :: bool
  violations :: "violation list"
  sanitized :: string

datatype error = AttributeError string | TypeError string

fun str_of_error :: "error \<Rightarrow> string" where
  "str_of_error (AttributeError msg) = msg"
| "str_of_error (TypeError msg) = msg"

definition quoted :: "string \<Rightarrow> string" where
  "quoted s = CHR 0x27 # s @ [CHR 0x27]"

text \<open>
  What \<open>self.guard.validate(text)\<close> and the loop over its error spans do: validation passes,
  or it fails with error spans, or an exception is raised after some spans (none when
  \<open>validate\<close> itself raises) have been turned into violations.
\<close>

datatype guard_outcome = Passed | Failed "string list" | Raised "string list"

text \<open>
  The attributes shared by \<open>InputGuardrail\<close> and \<open>OutputGuardrail\<close>. \<open>guard\<close> is \<open>None\<close>
  when Guardrails AI could not be set up (\<open>guardrails_available\<close> is then false).
  \<open>topic\<close> is \<open>config["system"]["topic"]\<close> and \<open>prohibited_categories\<close> is
  \<open>config["safety"]["prohibited_categories"]\<close>, each with \<open>None\<close> for a key whose value is
  null; a missing key is the default (\<open>""\<close>, \<open>[]\<close>).
\<close>

record guardrail =
  g_enabled :: bool
  prohibited_categories :: "string list option"
  topic :: "string option"
  guard :: "(string \<Rightarrow> guard_outcome) option"

definition guard_violation :: "string \<Rightarrow> violation" where
  "guard_violation err = basic_violation ''guardrails_ai'' err ''high''"

definition make_verdict :: "violation list \<Rightarrow> string \<Rightarrow> verdict" where
  "make_verdict vs text = \<lparr>valid = (length vs = 0), violations = vs, sanitized = text\<rparr>"

section \<open>InputGuardrail\<close>

definition toxic_keywords :: "string list" where
  "toxic_keywords =
     [''violent'', ''kill'', ''harm'', ''attack'', ''abuse'',
      ''hate'', ''racist'', ''sexist'', ''offensive'',
      ''create virus'', ''create malware'', ''create ransomware'',
      ''hack into'', ''exploit vulnerability'', ''ddos attack'',
      ''create trojan'', ''create worm'', ''create spyware'',
      ''bypass security'', ''crack password'', ''steal data'']"

definition check_toxic_language :: "string \<Rightarrow> violation list" where
  "check_toxic_language text =
     (let text_lower = lower text;
          found_keywords = filter (\<lambda>kw. str_in kw text_lower) toxic_keywords
      in if found_keywords \<noteq> []
         then [basic_violation ''toxic_language''
                 (''Contains potentially toxic language: '' @ join '', '' found_keywords)
                 ''high'']
         else [])"

definition injection_patterns :: "string list" where
  "injection_patterns =
     [''ignore previous'', ''ignore all previous'', ''disregard'', ''forget everything'',
      ''new instructions'', ''system prompt'', ''you are now'']"

definition check_prompt_injection :: "string \<Rightarrow> violation list" where
  "check_prompt_injection text =
     (let text_lower = lower text;
          found_patterns = filter (\<lambda>p. str_in p text_lower) injection_patterns
      in if found_patterns \<noteq> []
         then [basic_violation ''prompt_injection''
                 (''Potential prompt injection detected: '' @ join '', '' found_patterns)
                 ''high'']
         else [])"

definition off_topic_patterns :: "string list" where
  "off_topic_patterns =
     [[CHR ''w'', CHR ''h'', CHR ''a'', CHR ''t'', CHR 0x27, CHR ''s''] @ '' the weather'',
      ''weather today'', ''tell me a joke'', ''tell me a funny'',
      ''tell me something funny'', ''make me laugh'', ''play a game'', ''write a poem'',
      ''write me a poem'', ''solve this math'', ''solve math'', ''calculate'', ''recipe'',
      ''cooking'', ''virus'', ''malware'', ''ransomware'', ''trojan'', ''worm'', ''spyware'',
      ''hack into'', ''hack a'', ''exploit'', ''ddos'', ''crack password'',
      ''bypass security'']"

definition malicious_patterns :: "string list" where
  "malicious_patterns =
     [''how to create'', ''how to make'', ''how to build'', ''steps to create'',
      ''guide to creating'']"

definition harmful_targets :: "string list" where
  "harmful_targets = [''virus'', ''malware'', ''ransomware'', ''trojan'', ''worm'', ''exploit'']"

definition topic_keywords :: "string list" where
  "topic_keywords =
     [''synthetic'', ''ai'', ''artificial intelligence'', ''generative'',
      ''virtual'', ''simulation'', ''reality'', ''world'', ''environment'',
      ''immersive'', ''3d'', ''unreal'', ''unity'', ''metaverse'',
      ''procedural generation'', ''neural rendering'', ''human-ai'',
      ''co-creation'', ''collaboration'']"

text \<open>\<open>any(p in text for p in ps)\<close>\<close>

definition any_in :: "string list \<Rightarrow> string \<Rightarrow> bool" where
  "any_in ps text = list_ex (\<lambda>p. str_in p text) ps"

text \<open>
  \<open>_check_relevance\<close>. \<open>.lower()\<close> on a null topic raises \<open>AttributeError\<close>. The loop over
  \<open>off_topic_patterns\<close> returns one violation at the first pattern found.
\<close>

definition check_relevance :: "guardrail \<Rightarrow> string \<Rightarrow> error + violation list" where
  "check_relevance g query =
     (case topic g of
        None \<Rightarrow>
          Inl (AttributeError
                 (quoted ''NoneType'' @ '' object has no attribute '' @ quoted ''lower''))
      | Some t \<Rightarrow>
          (let system_topic = lower t in
           if system_topic = [] then Inr []
           else
             (let query_lower = lower query;
                  has_malicious_intent = any_in malicious_patterns query_lower;
                  has_harmful_target = any_in harmful_targets query_lower
              in if has_malicious_intent \<and> has_harmful_target
                 then Inr [basic_violation ''relevance''
                             (''Query requests malicious content that is not related to ''
                                @ system_topic @ '' research'')
                             ''high'']
                 else if any_in off_topic_patterns query_lower
                 then Inr [basic_violation ''relevance''
                             (''Query appears off-topic for '' @ system_topic @ '' research'')
                             ''high'']
                 else if length (split query_lower) > 10
                         \<and> \<not> any_in topic_keywords query_lower
                 then Inr [basic_violation ''relevance''
                             (''Query does not appear related to '' @ system_topic
                                @ ''. Please ask about AI-generated synthetic worlds, ''
                                @ ''virtual environments, or human-AI co-creation.'')
                             ''medium'']
                 else Inr [])))"

definition length_violations :: "string \<Rightarrow> violation list" where
  "length_violations query =
     (if length query < 5
      then [basic_violation ''length'' ''Query too short (minimum 5 characters)'' ''low'']
      else [])
     @ (if length query > 2000
        then [basic_violation ''length'' ''Query too long (maximum 2000 characters)''
                ''medium'']
        else [])"

text \<open>\<open>InputGuardrail.validate\<close>; \<open>Inl\<close> is an exception that leaves the method.\<close>

definition InputGuardrail_validate :: "guardrail \<Rightarrow> string \<Rightarrow> error + verdict" where
  "InputGuardrail_validate g query =
     (if \<not> g_enabled g
      then Inr \<lparr>valid = True, violations = [], sanitized = query\<rparr>
      else
        (let vs = length_violations query @ check_prompt_injection query in
         case guard g of
           Some validate \<Rightarrow>
             (case validate query of
                Passed \<Rightarrow> Inr (make_verdict vs query)
              | Failed spans \<Rightarrow> Inr (make_verdict (vs @ map guard_violation spans) query)
              | Raised spans \<Rightarrow>
                  Inr (make_verdict
                         (vs @ map guard_violation spans @ check_toxic_language query) query))
         | None \<Rightarrow>
             (case check_relevance g query of
                Inl e \<Rightarrow> Inl e
              | Inr relevance_violations \<Rightarrow>
                  Inr (make_verdict
                         (vs @ check_toxic_language query @ relevance_violations) query))))"

section \<open>OutputGuardrail\<close>

definition pii_patterns :: "(string \<times> item list) list" where
  "pii_patterns = [(''email'', email_pattern), (''phone'', phone_pattern), (''ssn'', ssn_pattern)]"

definition pii_violation :: "string \<Rightarrow> string list \<Rightarrow> violation" where
  "pii_violation ty ms =
     \<lparr>validator = ''pii'', reason = ''Contains '' @ ty, severity = ''high'',
      pii_type = Some ty, matches = Some ms, category = None, bias_type = None\<rparr>"

definition check_pii :: "string \<Rightarrow> violation list" where
  "check_pii text =
     concat (map (\<lambda>(ty, pattern).
                    (let ms = findall pattern text
                     in if ms \<noteq> [] then [pii_violation ty ms] else []))
                 pii_patterns)"

definition harmful_patterns :: "(string \<times> string list) list" where
  "harmful_patterns =
     [(''violent'', [''kill'', ''murder'', ''violence'', ''attack'', ''assault'']),
      (''hateful'', [''hate'', ''racist'', ''sexist'', ''discrimination'']),
      (''dangerous'', [''bomb'', ''weapon'', ''suicide'', ''self-harm'']),
      (''inappropriate'', [''explicit'', ''pornographic'', ''sexual''])]"

definition harmful_violation :: "string \<Rightarrow> string list \<Rightarrow> violation" where
  "harmful_violation cat found =
     \<lparr>validator = ''harmful_content'',
      reason = ''Contains potentially '' @ cat @ '' content: '' @ join '', '' found,
      severity = ''high'', pii_type = None, matches = None, category = Some cat,
      bias_type = None\<rparr>"

text \<open>
  \<open>_check_harmful_content\<close>. \<open>category in self.prohibited_categories\<close> raises \<open>TypeError\<close>
  when the configured value is null.
\<close>

definition check_harmful_content :: "guardrail \<Rightarrow> string \<Rightarrow> error + violation list" where
  "check_harmful_content g text =
     (case prohibited_categories g of
        None \<Rightarrow>
          Inl (TypeError (''argument of type '' @ quoted ''NoneType'' @ '' is not iterable''))
      | Some cats \<Rightarrow>
          (let text_lower = lower text in
           Inr (concat (map (\<lambda>(cat, keywords).
                               if cat \<in> set cats \<or> cats = []
                               then (let found = filter (\<lambda>kw. str_in kw text_lower) keywords
                                     in if found \<noteq> [] then [harmful_violation cat found]
                                        else [])
                               else [])
                            harmful_patterns))))"

text \<open>A source is a dictionary with a title and a URL; the checks only test the list.\<close>

record source =
  title :: string
  url :: string

definition fabrication_indicators :: "string list" where
  "fabrication_indicators =
     [''i think'', ''i believe'', ''probably'', ''maybe'', ''might be'',
      ''not sure'', ''unclear'', ''uncertain'']"

definition check_factual_consistency :: "string \<Rightarrow> source list \<Rightarrow> violation list" where
  "check_factual_consistency response sources =
     (if sources = [] then []
      else
        (let has_citations = (str_in ''['' response \<and> str_in '']'' response);
             has_references =
               (str_in ''reference'' (lower response) \<or> str_in ''source'' (lower response));
             text_lower = lower response;
             found_indicators = filter (\<lambda>ind. str_in ind text_lower) fabrication_indicators
         in (if \<not> has_citations \<and> \<not> has_references
             then [basic_violation ''factual_consistency'' ''Response does not cite sources''
                     ''medium'']
             else [])
            @ (if found_indicators \<noteq> []
               then [basic_violation ''factual_consistency''
                       (''Response contains uncertainty indicators: ''
                          @ join '', '' found_indicators)
                       ''low'']
               else [])))"

definition biased_terms :: "(string \<times> string list) list" where
  "biased_terms =
     [(''gender'', [''mankind'', ''manpower'', ''he/she'']),
      (''ageism'', [''elderly'', ''old people'', ''young people'']),
      (''ableism'', [''crazy'', ''insane'', ''lame'', ''blind to''])]"

definition bias_violation :: "string \<Rightarrow> string list \<Rightarrow> violation" where
  "bias_violation ty found =
     \<lparr>validator = ''bias_detection'',
      reason = ''Contains potentially biased language ('' @ ty @ ''): '' @ join '', '' found,
      severity = ''low'', pii_type = None, matches = None, category = None,
      bias_type = Some ty\<rparr>"

definition check_bias :: "string \<Rightarrow> violation list" where
  "check_bias text =
     (let text_lower = lower text in
      concat (map (\<lambda>(ty, terms).
                     (let found = filter (\<lambda>term. str_in term text_lower) terms
                      in if found \<noteq> [] then [bias_violation ty found] else []))
                  biased_terms))"

definition redaction_token :: string where
  "redaction_token = ''[REDACTED]''"

text \<open>\<open>_sanitize\<close>: for each PII violation in turn, each of its matches is replaced.\<close>

definition sanitize :: "string \<Rightarrow> violation list \<Rightarrow> string" where
  "sanitize text vs =
     fold (\<lambda>v sanitized.
             if validator v = ''pii''
             then fold (\<lambda>m acc. replace acc m redaction_token)
                       (case matches v of None \<Rightarrow> [] | Some ms \<Rightarrow> ms) sanitized
             else sanitized)
          vs text"

text \<open>The violations of the first part of \<open>OutputGuardrail.validate\<close>, before the bias check.\<close>

definition fallback_output_checks :: "guardrail \<Rightarrow> string \<Rightarrow> error + violation list" where
  "fallback_output_checks g response =
     (case check_harmful_content g response of
        Inl e \<Rightarrow> Inl e
      | Inr harmful_violations \<Rightarrow> Inr (check_pii response @ harmful_violations))"

definition content_checks :: "guardrail \<Rightarrow> string \<Rightarrow> error + violation list" where
  "content_checks g response =
     (case guard g of
        Some validate \<Rightarrow>
          (case validate response of
             Passed \<Rightarrow> Inr []
           | Failed spans \<Rightarrow> Inr (map guard_violation spans)
           | Raised spans \<Rightarrow>
               (case fallback_output_checks g response of
                  Inl e \<Rightarrow> Inl e
                | Inr vs \<Rightarrow> Inr (map guard_violation spans @ vs)))
      | None \<Rightarrow> fallback_output_checks g response)"

text \<open>
  \<open>OutputGuardrail.validate\<close>. \<open>sources\<close> is \<open>None\<close> or a list; \<open>if sources:\<close> holds for a
  non-empty list only.
\<close>

definition consistency_violations :: "string \<Rightarrow> source list option \<Rightarrow> violation list" where
  "consistency_violations response sources =
     (case sources of
        None \<Rightarrow> []
      | Some srcs \<Rightarrow> if srcs \<noteq> [] then check_factual_consistency response srcs else [])"

definition output_verdict :: "string \<Rightarrow> violation list \<Rightarrow> verdict" where
  "output_verdict response vs =
     \<lparr>valid = (length vs = 0), violations = vs,
      sanitized = (if vs \<noteq> [] then sanitize response vs else response)\<rparr>"

definition OutputGuardrail_validate ::
    "guardrail \<Rightarrow> string \<Rightarrow> source list option \<Rightarrow> error + verdict" where
  "OutputGuardrail_validate g response sources =
     (if \<not> g_enabled g
      then Inr \<lparr>valid = True, violations = [], sanitized = response\<rparr>
      else
        (case content_checks g response of
           Inl e \<Rightarrow> Inl e
         | Inr vs1 \<Rightarrow>
             Inr (output_verdict response
                    (vs1 @ check_bias response @ consistency_violations response sources))))"

section \<open>SafetyManager\<close>

text \<open>
  A logged event. \<open>event_type\<close>, \<open>event_safe\<close> and \<open>event_violations\<close> are the keys
  \<open>type\<close>, \<open>safe\<close> and \<open>violations\<close> of the event dictionary.
\<close>

record safety_event =
  timestamp :: string
  event_type :: string
  event_safe :: bool
  event_violations :: "violation list"
  content_preview :: string

text \<open>
  The dictionary \<open>config["safety"]["on_violation"]\<close>: the two keys that are read, each
  \<open>None\<close> when absent.
\<close>

record violation_policy =
  action :: "string option"
  message :: "string option"

text \<open>
  The manager object. \<open>on_violation\<close> is \<open>None\<close> when the configured value is null (a
  missing key is the empty dictionary). A guardrail is \<open>None\<close> when its construction failed.
\<close>

record manager =
  enabled :: bool
  log_events :: bool
  on_violation :: "violation_policy option"
  input_guardrail :: "guardrail option"
  output_guardrail :: "guardrail option"
  safety_events :: "safety_event list"

text \<open>
  The dictionary returned by a check; a key that a return path leaves out is \<open>None\<close>.
  \<open>result_violations\<close> is the key \<open>violations\<close>.
\<close>

record check_result =
  safe :: bool
  result_violations :: "violation list option"
  sanitized_query :: "string option"
  response :: "string option"
  error :: "string option"

text \<open>
  \<open>_log_safety_event\<close>, with the clock reading \<open>now\<close> passed in. The line appended to the
  optional log file is outside the model: it changes neither the event list nor a result, and
  a failed write is caught.
\<close>

definition make_event ::
    "string \<Rightarrow> string \<Rightarrow> string \<Rightarrow> violation list \<Rightarrow> bool \<Rightarrow> safety_event" where
  "make_event now ty content vs is_safe =
     \<lparr>timestamp = now, event_type = ty, event_safe = is_safe, event_violations = vs,
      content_preview = (if length content > 100 then take 100 content @ ''...'' else content)\<rparr>"

definition log_safety_event ::
    "string \<Rightarrow> string \<Rightarrow> string \<Rightarrow> violation list \<Rightarrow> bool \<Rightarrow> manager \<Rightarrow> manager" where
  "log_safety_event now ty content vs is_safe m =
     m\<lparr>safety_events := safety_events m @ [make_event now ty content vs is_safe]\<rparr>"

text \<open>
  \<open>check_input_safety\<close>. The statements behind the \<open>if\<close>/\<open>else\<close> of the source are never
  reached, since both branches return.
\<close>

definition check_input_safety :: "string \<Rightarrow> manager \<Rightarrow> string \<Rightarrow> check_result \<times> manager" where
  "check_input_safety now m query =
     (if \<not> enabled m
      then (\<lparr>safe = True, result_violations = Some [], sanitized_query = None,
             response = None, error = None\<rparr>, m)
      else
        (case input_guardrail m of
           Some g \<Rightarrow>
             (case InputGuardrail_validate g query of
                Inr result \<Rightarrow>
                  (let is_safe = valid result;
                       vs = violations result;
                       m' = (if \<not> is_safe \<and> log_events m
                             then log_safety_event now ''input_violation'' query vs is_safe m
                             else m)
                   in (\<lparr>safe = is_safe, result_violations = Some vs,
                         sanitized_query = Some (sanitized result), response = None,
                         error = None\<rparr>, m'))
              | Inl e \<Rightarrow>
                  (\<lparr>safe = True, result_violations = Some [], sanitized_query = None,
                    response = None, error = Some (str_of_error e)\<rparr>, m))
         | None \<Rightarrow>
             (\<lparr>safe = True, result_violations = Some [], sanitized_query = None,
               response = None, error = None\<rparr>, m)))"

definition default_refusal :: string where
  "default_refusal = ''I cannot provide this response due to safety policies.''"

text \<open>
  The block of \<open>check_output_safety\<close> that applies \<open>on_violation\<close> to the \<open>response\<close> key:
  the action defaults to \<open>"refuse"\<close> and the message to \<open>default_refusal\<close>; an action that is
  neither \<open>"sanitize"\<close> nor \<open>"refuse"\<close> leaves the response as it is. \<open>.get\<close> on a null
  \<open>on_violation\<close> raises \<open>AttributeError\<close>.
\<close>

definition policy_response ::
    "manager \<Rightarrow> string \<Rightarrow> bool \<Rightarrow> string \<Rightarrow> error + string" where
  "policy_response m resp is_safe sanitized_response =
     (if \<not> is_safe
      then (case on_violation m of
              None \<Rightarrow>
                Inl (AttributeError
                       (quoted ''NoneType'' @ '' object has no attribute '' @ quoted ''get''))
            | Some policy \<Rightarrow>
                (let act = (case action policy of None \<Rightarrow> ''refuse'' | Some a \<Rightarrow> a)
                 in if act = ''sanitize'' then Inr sanitized_response
                    else if act = ''refuse''
                    then Inr (case message policy of
                                None \<Rightarrow> default_refusal | Some msg \<Rightarrow> msg)
                    else Inr resp))
      else Inr resp)"

definition check_output_safety ::
    "string \<Rightarrow> manager \<Rightarrow> string \<Rightarrow> source list option \<Rightarrow> check_result \<times> manager" where
  "check_output_safety now m resp sources =
     (if \<not> enabled m
      then (\<lparr>safe = True, result_violations = None, sanitized_query = None,
             response = Some resp, error = None\<rparr>, m)
      else
        (case output_guardrail m of
           Some g \<Rightarrow>
             (case OutputGuardrail_validate g resp sources of
                Inr result \<Rightarrow>
                  (let is_safe = valid result;
                       vs = violations result;
                       sanitized_response = sanitized result;
                       m' = (if \<not> is_safe \<and> log_events m
                             then log_safety_event now ''output_violation'' (take 200 resp)
                                    vs is_safe m
                             else m)
                   in case policy_response m resp is_safe sanitized_response of
                        Inr returned \<Rightarrow>
                          (\<lparr>safe = is_safe, result_violations = Some vs,
                            sanitized_query = None, response = Some returned,
                            error = None\<rparr>, m')
                      | Inl e \<Rightarrow>
                          (\<lparr>safe = True, result_violations = Some [],
                            sanitized_query = None, response = Some resp,
                            error = Some (str_of_error e)\<rparr>, m'))
              | Inl e \<Rightarrow>
                  (\<lparr>safe = True, result_violations = Some [], sanitized_query = None,
                    response = Some resp, error = Some (str_of_error e)\<rparr>, m))
         | None \<Rightarrow>
             (\<lparr>safe = True, result_violations = Some [], sanitized_query = None,
               response = Some resp, error = None\<rparr>, m)))"

record safety_stats =
  total_events :: nat
  input_checks :: nat
  output_checks :: nat
  stats_violations :: nat
  violation_rate :: rat

text \<open>
  \<open>get_safety_stats\<close>. \<open>violations / total\<close> is Python's true division; the model keeps
  the exact quotient.
\<close>

definition get_safety_stats :: "manager \<Rightarrow> safety_stats" where
  "get_safety_stats m =
     (let total = length (safety_events m);
          input_events = length (filter (\<lambda>e. event_type e = ''input'') (safety_events m));
          output_events = length (filter (\<lambda>e. event_type e = ''output'') (safety_events m));
          n_violations = length (filter (\<lambda>e. \<not> event_safe e) (safety_events m))
      in \<lparr>total_events = total, input_checks = input_events, output_checks = output_events,
          stats_violations = n_violations,
          violation_rate = (if total > 0 then of_nat n_violations / of_nat total else 0)\<rparr>)"

definition get_safety_events :: "manager \<Rightarrow> safety_event list" where
  "get_safety_events m = safety_events m"

definition clear_events :: "manager \<Rightarrow> manager" where
  "clear_events m = m\<lparr>safety_events := []\<rparr>"

text \<open>A sequence of calls on one manager, each check with its clock reading.\<close>

datatype call =
    CheckInput string string
  | CheckOutput string string "source list option"
  | ClearEvents

fun run_call :: "manager \<Rightarrow> call \<Rightarrow> manager" where
  "run_call m (CheckInput now query) = snd (check_input_safety now m query)"
| "run_call m (CheckOutput now resp sources) = snd (check_output_safety now m resp sources)"
| "run_call m ClearEvents = clear_events m"

definition run_calls :: "manager \<Rightarrow> call list \<Rightarrow> manager" where
  "run_calls m cs = foldl run_call m cs"

section \<open>Example configurations\<close>

text \<open>
  A guardrail without Guardrails AI and with a topic, one built from a configuration whose
  topic and prohibited categories are null, and managers around them.
\<close>

definition fallback_guardrail :: guardrail where
  "fallback_guardrail =
     \<lparr>g_enabled = True, prohibited_categories = Some [], topic = Some ''synthetic worlds'',
      guard = None\<rparr>"

definition null_config_guardrail :: guardrail where
  "null_config_guardrail =
     \<lparr>g_enabled = True, prohibited_categories = None, topic = None, guard = None\<rparr>"

definition example_manager :: "guardrail \<Rightarrow> bool \<Rightarrow> string option \<Rightarrow> manager" where
  "example_manager g logging act =
     \<lparr>enabled = True, log_events = logging,
      on_violation = Some \<lparr>action = act, message = Some ''Blocked.''\<rparr>,
      input_guardrail = Some g, output_guardrail = Some g, safety_events = []\<rparr>"

section \<open>The verdict of a validation\<close>

lemma input_validate_verdict:
  assumes v: "InputGuardrail_validate g query = Inr v"
  shows "v = make_verdict (violations v) query"
proof (cases "g_enabled g")
  case False
  with v have "v = \<lparr>valid = True, violations = [], sanitized = query\<rparr>"
    by (simp add: InputGuardrail_validate_def)
  then show ?thesis by (simp add: make_verdict_def)
next
  case True
  have shape: "make_verdict vs query = make_verdict (violations (make_verdict vs query)) query"
    for vs by (simp add: make_verdict_def)
  show ?thesis
  proof (cases "guard g")
    case None
    show ?thesis
    proof (cases "check_relevance g query")
      case (Inl e)
      with True None v show ?thesis by (simp add: InputGuardrail_validate_def)
    next
      case (Inr rel)
      with True None v shape show ?thesis
        by (auto simp: InputGuardrail_validate_def Let_def)
    qed
  next
    case (Some f)
    with True v shape show ?thesis
      by (cases "f query") (auto simp: InputGuardrail_validate_def Let_def)
  qed
qed

lemma output_validate_verdict:
  assumes w: "OutputGuardrail_validate g resp srcs = Inr w"
  shows "w = output_verdict resp (violations w)"
proof (cases "g_enabled g")
  case False
  with w have "w = \<lparr>valid = True, violations = [], sanitized = resp\<rparr>"
    by (simp add: OutputGuardrail_validate_def)
  then show ?thesis by (simp add: output_verdict_def)
next
  case True
  show ?thesis
  proof (cases "content_checks g resp")
    case (Inl e)
    with True w show ?thesis by (simp add: OutputGuardrail_validate_def)
  next
    case (Inr vs1)
    with True w have "w = output_verdict resp
        (vs1 @ check_bias resp @ consistency_violations resp srcs)"
      by (simp add: OutputGuardrail_validate_def)
    then show ?thesis by (simp add: output_verdict_def)
  qed
qed

text \<open>
  C1. Whenever \<open>InputGuardrail.validate\<close> or \<open>OutputGuardrail.validate\<close> returns a verdict,
  its \<open>valid\<close> flag is true exactly when its list of violations is empty, and a valid
  verdict carries the text that was passed in, unchanged, as its sanitized text.
\<close>

theorem verdict_invariant:
  "(InputGuardrail_validate g query = Inr v \<longrightarrow>
      (valid v \<longleftrightarrow> violations v = []) \<and> (valid v \<longrightarrow> sanitized v = query))
   \<and> (OutputGuardrail_validate g' resp srcs = Inr w \<longrightarrow>
      (valid w \<longleftrightarrow> violations w = []) \<and> (valid w \<longrightarrow> sanitized w = resp))"
proof (intro conjI impI)
  assume "InputGuardrail_validate g query = Inr v"
  then have v: "v = make_verdict (violations v) query"
    by (rule input_validate_verdict)
  show "valid v \<longleftrightarrow> violations v = []"
    by (subst v) (simp add: make_verdict_def)
  show "sanitized v = query"
    by (subst v) (simp add: make_verdict_def)
next
  assume "OutputGuardrail_validate g' resp srcs = Inr w"
  then have w: "w = output_verdict resp (violations w)"
    by (rule output_validate_verdict)
  show "valid w \<longleftrightarrow> violations w = []"
    by (subst w) (simp add: output_verdict_def)
  assume "valid w"
  then have "violations w = []"
    by (subst (asm) w) (simp add: output_verdict_def)
  then show "sanitized w = resp"
    by (subst w) (simp add: output_verdict_def)
qed

theorem verdict_invariant_witness:
  "InputGuardrail_validate fallback_guardrail ''hello world''
     = Inr \<lparr>valid = True, violations = [], sanitized = ''hello world''\<rparr>
   \<and> OutputGuardrail_validate fallback_guardrail ''mail a@b.co'' None
     = Inr \<lparr>valid = False, violations = [pii_violation ''email'' [''a@b.co'']],
            sanitized = ''mail [REDACTED]''\<rparr>
   \<and> (valid \<lparr>valid = True, violations = [], sanitized = ''hello world''\<rparr>
        \<longleftrightarrow> violations \<lparr>valid = True, violations = [], sanitized = ''hello world''\<rparr> = [])
   \<and> sanitized \<lparr>valid = True, violations = [], sanitized = ''hello world''\<rparr> = ''hello world''
   \<and> (valid \<lparr>valid = False, violations = [pii_violation ''email'' [''a@b.co'']],
              sanitized = ''mail [REDACTED]''\<rparr>
        \<longleftrightarrow> violations \<lparr>valid = False, violations = [pii_violation ''email'' [''a@b.co'']],
              sanitized = ''mail [REDACTED]''\<rparr> = [])"
proof -
  have a: "InputGuardrail_validate fallback_guardrail ''hello world''
             = Inr \<lparr>valid = True, violations = [], sanitized = ''hello world''\<rparr>"
    by code_simp
  have b: "OutputGuardrail_validate fallback_guardrail ''mail a@b.co'' None
     = Inr \<lparr>valid = False, violations = [pii_violation ''email'' [''a@b.co'']],
            sanitized = ''mail [REDACTED]''\<rparr>"
    by code_simp
  from verdict_invariant
         [of fallback_guardrail "''hello world''"
             "\<lparr>valid = True, violations = [], sanitized = ''hello world''\<rparr>"
             fallback_guardrail "''mail a@b.co''" None
             "\<lparr>valid = False, violations = [pii_violation ''email'' [''a@b.co'']],
               sanitized = ''mail [REDACTED]''\<rparr>"]
    a b
  show ?thesis by simp
qed

section \<open>What a check returns and logs\<close>

lemma check_input_raised:
  "enabled m \<Longrightarrow> input_guardrail m = Some g \<Longrightarrow> InputGuardrail_validate g query = Inl e \<Longrightarrow>
   check_input_safety now m query =
     (\<lparr>safe = True, result_violations = Some [], sanitized_query = None, response = None,
       error = Some (str_of_error e)\<rparr>, m)"
  by (simp add: check_input_safety_def)

lemma check_input_validated:
  "enabled m \<Longrightarrow> input_guardrail m = Some g \<Longrightarrow> InputGuardrail_validate g query = Inr v \<Longrightarrow>
   check_input_safety now m query =
     (\<lparr>safe = valid v, result_violations = Some (violations v),
       sanitized_query = Some (sanitized v), response = None, error = None\<rparr>,
      if \<not> valid v \<and> log_events m
      then log_safety_event now ''input_violation'' query (violations v) (valid v) m
      else m)"
  by (simp add: check_input_safety_def Let_def)

lemma check_input_skipped:
  "\<not> enabled m \<or> input_guardrail m = None \<Longrightarrow>
   check_input_safety now m query =
     (\<lparr>safe = True, result_violations = Some [], sanitized_query = None, response = None,
       error = None\<rparr>, m)"
  by (auto simp: check_input_safety_def)

lemma check_output_raised:
  "enabled m \<Longrightarrow> output_guardrail m = Some g \<Longrightarrow>
   OutputGuardrail_validate g resp srcs = Inl e \<Longrightarrow>
   check_output_safety now m resp srcs =
     (\<lparr>safe = True, result_violations = Some [], sanitized_query = None,
       response = Some resp, error = Some (str_of_error e)\<rparr>, m)"
  by (simp add: check_output_safety_def)

lemma check_output_validated:
  "enabled m \<Longrightarrow> output_guardrail m = Some g \<Longrightarrow>
   OutputGuardrail_validate g resp srcs = Inr v \<Longrightarrow>
   check_output_safety now m resp srcs =
     ((case policy_response m resp (valid v) (sanitized v) of
         Inr returned \<Rightarrow>
           \<lparr>safe = valid v, result_violations = Some (violations v), sanitized_query = None,
            response = Some returned, error = None\<rparr>
       | Inl e \<Rightarrow>
           \<lparr>safe = True, result_violations = Some [], sanitized_query = None,
            response = Some resp, error = Some (str_of_error e)\<rparr>),
      if \<not> valid v \<and> log_events m
      then log_safety_event now ''output_violation'' (take 200 resp) (violations v) (valid v) m
      else m)"
  by (simp add: check_output_safety_def Let_def split: sum.split)

lemma check_output_disabled:
  "\<not> enabled m \<Longrightarrow>
   check_output_safety now m resp srcs =
     (\<lparr>safe = True, result_violations = None, sanitized_query = None,
       response = Some resp, error = None\<rparr>, m)"
  by (simp add: check_output_safety_def)

lemma check_output_no_guardrail:
  "enabled m \<Longrightarrow> output_guardrail m = None \<Longrightarrow>
   check_output_safety now m resp srcs =
     (\<lparr>safe = True, result_violations = Some [], sanitized_query = None,
       response = Some resp, error = None\<rparr>, m)"
  by (simp add: check_output_safety_def)

text \<open>
  C2. When the input validator raises during \<open>check_input_safety\<close>, the manager returns
  \<open>safe = True\<close> with an empty list of violations and the text of the exception under
  \<open>error\<close>, and logs nothing; when the output validator raises during
  \<open>check_output_safety\<close>, the same holds and the original response is returned.
\<close>

theorem fail_open:
  assumes "enabled m"
  shows "(input_guardrail m = Some g \<and> InputGuardrail_validate g query = Inl e \<longrightarrow>
            check_input_safety now m query =
              (\<lparr>safe = True, result_violations = Some [], sanitized_query = None,
                response = None, error = Some (str_of_error e)\<rparr>, m))
       \<and> (output_guardrail m = Some g' \<and> OutputGuardrail_validate g' resp srcs = Inl e' \<longrightarrow>
            check_output_safety now m resp srcs =
              (\<lparr>safe = True, result_violations = Some [], sanitized_query = None,
                response = Some resp, error = Some (str_of_error e')\<rparr>, m))"
  using assms check_input_raised check_output_raised by blast

theorem fail_open_witness:
  "enabled (example_manager null_config_guardrail True None)
   \<and> InputGuardrail_validate null_config_guardrail ''hello there''
       = Inl (AttributeError
               (quoted ''NoneType'' @ '' object has no attribute '' @ quoted ''lower''))
   \<and> OutputGuardrail_validate null_config_guardrail ''some answer'' None
       = Inl (TypeError (''argument of type '' @ quoted ''NoneType'' @ '' is not iterable''))
   \<and> check_input_safety ''t'' (example_manager null_config_guardrail True None) ''hello there''
       = (\<lparr>safe = True, result_violations = Some [], sanitized_query = None, response = None,
           error = Some (quoted ''NoneType'' @ '' object has no attribute ''
                           @ quoted ''lower'')\<rparr>,
          example_manager null_config_guardrail True None)
   \<and> check_output_safety ''t'' (example_manager null_config_guardrail True None)
         ''some answer'' None
       = (\<lparr>safe = True, result_violations = Some [], sanitized_query = None,
           response = Some ''some answer'',
           error = Some (''argument of type '' @ quoted ''NoneType''
                           @ '' is not iterable'')\<rparr>,
          example_manager null_config_guardrail True None)"
proof -
  have en: "enabled (example_manager null_config_guardrail True None)"
    by (simp add: example_manager_def)
  have gi: "input_guardrail (example_manager null_config_guardrail True None)
              = Some null_config_guardrail"
    by (simp add: example_manager_def)
  have go: "output_guardrail (example_manager null_config_guardrail True None)
              = Some null_config_guardrail"
    by (simp add: example_manager_def)
  have a: "InputGuardrail_validate null_config_guardrail ''hello there''
       = Inl (AttributeError
               (quoted ''NoneType'' @ '' object has no attribute '' @ quoted ''lower''))"
    by code_simp
  have b: "OutputGuardrail_validate null_config_guardrail ''some answer'' None
       = Inl (TypeError (''argument of type '' @ quoted ''NoneType'' @ '' is not iterable''))"
    by code_simp
  from fail_open [OF en, of null_config_guardrail "''hello there''" _
                    "''t''" null_config_guardrail "''some answer''" None]
       en gi go a b
  show ?thesis by simp
qed

text \<open>
  C3. For a response on which the output validator returns a verdict, the \<open>response\<close>
  returned by \<open>check_output_safety\<close> is: the original response when the verdict is valid;
  the configured refusal message, and nothing else, when the verdict is not valid and the
  configured action is \<open>"refuse"\<close>; the validator's sanitized text when the verdict is not
  valid and the configured action is \<open>"sanitize"\<close>. The returned \<open>safe\<close> flag is the
  verdict's \<open>valid\<close> flag in each of these cases.
\<close>

theorem output_policy:
  assumes "enabled m"
    and "output_guardrail m = Some g"
    and "OutputGuardrail_validate g resp srcs = Inr v"
  shows "(valid v \<longrightarrow>
            safe (fst (check_output_safety now m resp srcs))
            \<and> response (fst (check_output_safety now m resp srcs)) = Some resp)
       \<and> (\<not> valid v \<and> on_violation m = Some policy \<and> action policy = Some ''refuse''
            \<and> message policy = Some msg \<longrightarrow>
            \<not> safe (fst (check_output_safety now m resp srcs))
            \<and> response (fst (check_output_safety now m resp srcs)) = Some msg)
       \<and> (\<not> valid v \<and> on_violation m = Some policy \<and> action policy = Some ''sanitize''
            \<longrightarrow>
            \<not> safe (fst (check_output_safety now m resp srcs))
            \<and> response (fst (check_output_safety now m resp srcs)) = Some (sanitized v))"
  using assms by (simp add: check_output_validated policy_response_def)

theorem output_policy_witness:
  "OutputGuardrail_validate fallback_guardrail ''All fine.'' None
     = Inr \<lparr>valid = True, violations = [], sanitized = ''All fine.''\<rparr>
   \<and> OutputGuardrail_validate fallback_guardrail ''mail a@b.co'' None
     = Inr \<lparr>valid = False, violations = [pii_violation ''email'' [''a@b.co'']],
            sanitized = ''mail [REDACTED]''\<rparr>
   \<and> safe (fst (check_output_safety ''t'' (example_manager fallback_guardrail True None)
                ''All fine.'' None))
   \<and> response (fst (check_output_safety ''t'' (example_manager fallback_guardrail True None)
                ''All fine.'' None)) = Some ''All fine.''
   \<and> \<not> safe (fst (check_output_safety ''t''
                    (example_manager fallback_guardrail True (Some ''refuse''))
                    ''mail a@b.co'' None))
   \<and> response (fst (check_output_safety ''t''
                    (example_manager fallback_guardrail True (Some ''refuse''))
                    ''mail a@b.co'' None)) = Some ''Blocked.''
   \<and> \<not> safe (fst (check_output_safety ''t''
                    (example_manager fallback_guardrail True (Some ''sanitize''))
                    ''mail a@b.co'' None))
   \<and> response (fst (check_output_safety ''t''
                    (example_manager fallback_guardrail True (Some ''sanitize''))
                    ''mail a@b.co'' None)) = Some ''mail [REDACTED]''"
proof -
  have ok: "OutputGuardrail_validate fallback_guardrail ''All fine.'' None
     = Inr \<lparr>valid = True, violations = [], sanitized = ''All fine.''\<rparr>"
    by code_simp
  have pii: "OutputGuardrail_validate fallback_guardrail ''mail a@b.co'' None
     = Inr \<lparr>valid = False, violations = [pii_violation ''email'' [''a@b.co'']],
            sanitized = ''mail [REDACTED]''\<rparr>"
    by code_simp
  have en: "enabled (example_manager fallback_guardrail True act)" for act
    by (simp add: example_manager_def)
  have og: "output_guardrail (example_manager fallback_guardrail True act)
              = Some fallback_guardrail" for act
    by (simp add: example_manager_def)
  have c1: "safe (fst (check_output_safety ''t'' (example_manager fallback_guardrail True None)
                ''All fine.'' None))
            \<and> response (fst (check_output_safety ''t''
                  (example_manager fallback_guardrail True None) ''All fine.'' None))
                = Some ''All fine.''"
    using output_policy [OF en og ok, where now = "''t''"] by simp
  have c2: "\<not> safe (fst (check_output_safety ''t''
                    (example_manager fallback_guardrail True (Some ''refuse''))
                    ''mail a@b.co'' None))
            \<and> response (fst (check_output_safety ''t''
                    (example_manager fallback_guardrail True (Some ''refuse''))
                    ''mail a@b.co'' None)) = Some ''Blocked.''"
    using output_policy [OF en og pii, where now = "''t''" and msg = "''Blocked.''"
                            and policy = "\<lparr>action = Some ''refuse'', message = Some ''Blocked.''\<rparr>"]
    by (simp add: example_manager_def)
  have c3: "\<not> safe (fst (check_output_safety ''t''
                    (example_manager fallback_guardrail True (Some ''sanitize''))
                    ''mail a@b.co'' None))
            \<and> response (fst (check_output_safety ''t''
                    (example_manager fallback_guardrail True (Some ''sanitize''))
                    ''mail a@b.co'' None)) = Some ''mail [REDACTED]''"
    using output_policy [OF en og pii, where now = "''t''"
                            and policy = "\<lparr>action = Some ''sanitize'', message = Some ''Blocked.''\<rparr>"]
    by (simp add: example_manager_def)
  from ok pii c1 c2 c3 show ?thesis by blast
qed

section \<open>The event log\<close>

lemma valid_iff_no_violations_input:
  assumes "InputGuardrail_validate g q = Inr v"
  shows "valid v \<longleftrightarrow> violations v = []"
  using input_validate_verdict[OF assms] by (cases v) (simp add: make_verdict_def)

lemma valid_iff_no_violations_output:
  assumes "OutputGuardrail_validate g r srcs = Inr v"
  shows "valid v \<longleftrightarrow> violations v = []"
  using output_validate_verdict[OF assms] by (cases v) (simp add: output_verdict_def)

lemma check_input_logged:
  assumes "enabled m" "log_events m" "input_guardrail m = Some g"
    and "InputGuardrail_validate g q = Inr v" "violations v \<noteq> []"
  shows "snd (check_input_safety now m q)
           = log_safety_event now ''input_violation'' q (violations v) False m"
  using assms valid_iff_no_violations_input[OF assms(4)]
  by (simp add: check_input_validated)

lemma check_output_logged:
  assumes "enabled m" "log_events m" "output_guardrail m = Some g"
    and "OutputGuardrail_validate g r srcs = Inr v" "violations v \<noteq> []"
  shows "snd (check_output_safety now m r srcs)
           = log_safety_event now ''output_violation'' (take 200 r) (violations v) False m"
  using assms valid_iff_no_violations_output[OF assms(4)]
  by (simp add: check_output_validated)

lemma check_input_not_logged:
  assumes "\<not> (enabled m \<and> log_events m
              \<and> (\<exists>g v. input_guardrail m = Some g \<and> InputGuardrail_validate g q = Inr v
                        \<and> violations v \<noteq> []))"
  shows "snd (check_input_safety now m q) = m"
proof (cases "enabled m \<and> input_guardrail m \<noteq> None")
  case False
  then have "\<not> enabled m \<or> input_guardrail m = None" by blast
  then show ?thesis by (simp add: check_input_skipped)
next
  case True
  then obtain g where g: "enabled m" "input_guardrail m = Some g" by auto
  show ?thesis
  proof (cases "InputGuardrail_validate g q")
    case (Inl e)
    with g show ?thesis by (simp add: check_input_raised)
  next
    case (Inr v)
    with g assms valid_iff_no_violations_input[OF Inr] show ?thesis
      by (auto simp: check_input_validated)
  qed
qed

lemma check_output_not_logged:
  assumes "\<not> (enabled m \<and> log_events m
              \<and> (\<exists>g v. output_guardrail m = Some g \<and> OutputGuardrail_validate g r srcs = Inr v
                        \<and> violations v \<noteq> []))"
  shows "snd (check_output_safety now m r srcs) = m"
proof (cases "enabled m")
  case False
  then show ?thesis by (simp add: check_output_disabled)
next
  case en: True
  show ?thesis
  proof (cases "output_guardrail m")
    case None
    with en show ?thesis by (simp add: check_output_no_guardrail)
  next
    case (Some g)
    show ?thesis
    proof (cases "OutputGuardrail_validate g r srcs")
      case (Inl e)
      with en Some show ?thesis by (simp add: check_output_raised)
    next
      case (Inr v)
      with en Some assms valid_iff_no_violations_output[OF Inr] show ?thesis
        by (auto simp: check_output_validated)
    qed
  qed
qed

lemma log_safety_event_events:
  "safety_events (log_safety_event now ty content vs is_safe m)
     = safety_events m @ [make_event now ty content vs is_safe]"
  by (simp add: log_safety_event_def)

text \<open>
  C6. While checks and event logging are both enabled, a call of \<open>check_input_safety\<close> or
  \<open>check_output_safety\<close> whose validator returns a verdict with at least one violation
  appends exactly one event to the event list: the event built from the clock reading, the
  type \<open>"input_violation"\<close> or \<open>"output_violation"\<close>, the checked text (the first 200
  characters of a response), the verdict's violations and \<open>safe = False\<close>. Every other
  check call leaves the manager, and so the event list, as it was.
\<close>

theorem event_logging:
  "(enabled m \<and> log_events m \<and> input_guardrail m = Some g
      \<and> InputGuardrail_validate g q = Inr v \<and> violations v \<noteq> [] \<longrightarrow>
      safety_events (snd (check_input_safety now m q))
        = safety_events m @ [make_event now ''input_violation'' q (violations v) False])
   \<and> (\<not> (enabled m \<and> log_events m
           \<and> (\<exists>g v. input_guardrail m = Some g \<and> InputGuardrail_validate g q = Inr v
                     \<and> violations v \<noteq> [])) \<longrightarrow>
      snd (check_input_safety now m q) = m)
   \<and> (enabled m \<and> log_events m \<and> output_guardrail m = Some g'
      \<and> OutputGuardrail_validate g' r srcs = Inr w \<and> violations w \<noteq> [] \<longrightarrow>
      safety_events (snd (check_output_safety now m r srcs))
        = safety_events m
          @ [make_event now ''output_violation'' (take 200 r) (violations w) False])
   \<and> (\<not> (enabled m \<and> log_events m
           \<and> (\<exists>g v. output_guardrail m = Some g \<and> OutputGuardrail_validate g r srcs = Inr v
                     \<and> violations v \<noteq> [])) \<longrightarrow>
      snd (check_output_safety now m r srcs) = m)"
proof (intro conjI impI)
  assume "enabled m \<and> log_events m \<and> input_guardrail m = Some g
      \<and> InputGuardrail_validate g q = Inr v \<and> violations v \<noteq> []"
  then show "safety_events (snd (check_input_safety now m q))
        = safety_events m @ [make_event now ''input_violation'' q (violations v) False]"
    by (simp add: check_input_logged log_safety_event_events)
next
  assume "\<not> (enabled m \<and> log_events m
           \<and> (\<exists>g v. input_guardrail m = Some g \<and> InputGuardrail_validate g q = Inr v
                     \<and> violations v \<noteq> []))"
  then show "snd (check_input_safety now m q) = m" by (rule check_input_not_logged)
next
  assume "enabled m \<and> log_events m \<and> output_guardrail m = Some g'
      \<and> OutputGuardrail_validate g' r srcs = Inr w \<and> violations w \<noteq> []"
  then show "safety_events (snd (check_output_safety now m r srcs))
        = safety_events m
          @ [make_event now ''output_violation'' (take 200 r) (violations w) False]"
    by (simp add: check_output_logged log_safety_event_events)
next
  assume "\<not> (enabled m \<and> log_events m
           \<and> (\<exists>g v. output_guardrail m = Some g \<and> OutputGuardrail_validate g r srcs = Inr v
                     \<and> violations v \<noteq> []))"
  then show "snd (check_output_safety now m r srcs) = m" by (rule check_output_not_logged)
qed

theorem event_logging_witness:
  "safety_events (snd (check_input_safety ''t''
                         (example_manager fallback_guardrail True None) ''hi''))
     = [make_event ''t'' ''input_violation'' ''hi''
          [basic_violation ''length'' ''Query too short (minimum 5 characters)'' ''low'']
          False]
   \<and> safety_events (snd (check_output_safety ''t''
                           (example_manager fallback_guardrail True None) ''mail a@b.co'' None))
     = [make_event ''t'' ''output_violation'' ''mail a@b.co''
          [pii_violation ''email'' [''a@b.co'']] False]
   \<and> snd (check_input_safety ''t'' (example_manager fallback_guardrail False None) ''hi'')
     = example_manager fallback_guardrail False None
   \<and> snd (check_output_safety ''t'' (example_manager fallback_guardrail False None)
             ''mail a@b.co'' None)
     = example_manager fallback_guardrail False None"
proof -
  have a: "InputGuardrail_validate fallback_guardrail ''hi''
       = Inr \<lparr>valid = False,
              violations = [basic_violation ''length''
                              ''Query too short (minimum 5 characters)'' ''low''],
              sanitized = ''hi''\<rparr>"
    by code_simp
  have b: "OutputGuardrail_validate fallback_guardrail ''mail a@b.co'' None
     = Inr \<lparr>valid = False, violations = [pii_violation ''email'' [''a@b.co'']],
            sanitized = ''mail [REDACTED]''\<rparr>"
    by code_simp
  have c: "take 200 ''mail a@b.co'' = ''mail a@b.co''"
    by simp
  from event_logging
         [of "example_manager fallback_guardrail True None" fallback_guardrail "''hi''"
             "\<lparr>valid = False,
               violations = [basic_violation ''length''
                               ''Query too short (minimum 5 characters)'' ''low''],
               sanitized = ''hi''\<rparr>"
             "''t''" fallback_guardrail "''mail a@b.co''" None
             "\<lparr>valid = False, violations = [pii_violation ''email'' [''a@b.co'']],
               sanitized = ''mail [REDACTED]''\<rparr>"]
       a b c
  have logged:
    "safety_events (snd (check_input_safety ''t''
                         (example_manager fallback_guardrail True None) ''hi''))
     = [make_event ''t'' ''input_violation'' ''hi''
          [basic_violation ''length'' ''Query too short (minimum 5 characters)'' ''low'']
          False]
     \<and> safety_events (snd (check_output_safety ''t''
                           (example_manager fallback_guardrail True None) ''mail a@b.co'' None))
     = [make_event ''t'' ''output_violation'' ''mail a@b.co''
          [pii_violation ''email'' [''a@b.co'']] False]"
    by (simp add: example_manager_def)
  from event_logging
         [of "example_manager fallback_guardrail False None" fallback_guardrail "''hi''"
             _ "''t''" fallback_guardrail "''mail a@b.co''" None]
  have silent:
    "snd (check_input_safety ''t'' (example_manager fallback_guardrail False None) ''hi'')
     = example_manager fallback_guardrail False None
     \<and> snd (check_output_safety ''t'' (example_manager fallback_guardrail False None)
             ''mail a@b.co'' None)
     = example_manager fallback_guardrail False None"
    by (simp add: example_manager_def)
  from logged silent show ?thesis by simp
qed

text \<open>
  Without the condition on event logging the statement fails: a manager with checks enabled
  and \<open>log_events\<close> false finds a violation in the query \<open>"hi"\<close> and appends nothing.
\<close>

theorem event_logging_counterexample:
  "enabled (example_manager fallback_guardrail False None)
   \<and> InputGuardrail_validate fallback_guardrail ''hi''
       = Inr \<lparr>valid = False,
              violations = [basic_violation ''length''
                              ''Query too short (minimum 5 characters)'' ''low''],
              sanitized = ''hi''\<rparr>
   \<and> safety_events (example_manager fallback_guardrail False None) = []
   \<and> safety_events (snd (check_input_safety ''t''
                            (example_manager fallback_guardrail False None) ''hi'')) = []"
  by code_simp

text \<open>
  C7. The event appended by a check has as its \<open>content_preview\<close> the checked text itself
  when that text has at most 100 characters, and otherwise its first 100 characters followed
  by \<open>"..."\<close>; the checked text is the query for \<open>check_input_safety\<close> and the response
  for \<open>check_output_safety\<close>.
\<close>

theorem content_preview_logged:
  "(enabled m \<and> log_events m \<and> input_guardrail m = Some g
      \<and> InputGuardrail_validate g q = Inr v \<and> violations v \<noteq> [] \<longrightarrow>
      (\<exists>e. safety_events (snd (check_input_safety now m q)) = safety_events m @ [e]
           \<and> content_preview e = (if length q > 100 then take 100 q @ ''...'' else q)))
   \<and> (enabled m \<and> log_events m \<and> output_guardrail m = Some g'
      \<and> OutputGuardrail_validate g' r srcs = Inr w \<and> violations w \<noteq> [] \<longrightarrow>
      (\<exists>e. safety_events (snd (check_output_safety now m r srcs)) = safety_events m @ [e]
           \<and> content_preview e = (if length r > 100 then take 100 r @ ''...'' else r)))"
proof (intro conjI impI)
  assume "enabled m \<and> log_events m \<and> input_guardrail m = Some g
      \<and> InputGuardrail_validate g q = Inr v \<and> violations v \<noteq> []"
  then have "safety_events (snd (check_input_safety now m q))
        = safety_events m @ [make_event now ''input_violation'' q (violations v) False]"
    by (simp add: check_input_logged log_safety_event_events)
  moreover have "content_preview (make_event now ''input_violation'' q (violations v) False)
                   = (if length q > 100 then take 100 q @ ''...'' else q)"
    by (simp add: make_event_def)
  ultimately show "\<exists>e. safety_events (snd (check_input_safety now m q)) = safety_events m @ [e]
           \<and> content_preview e = (if length q > 100 then take 100 q @ ''...'' else q)"
    by blast
next
  assume "enabled m \<and> log_events m \<and> output_guardrail m = Some g'
      \<and> OutputGuardrail_validate g' r srcs = Inr w \<and> violations w \<noteq> []"
  then have "safety_events (snd (check_output_safety now m r srcs))
        = safety_events m
          @ [make_event now ''output_violation'' (take 200 r) (violations w) False]"
    by (simp add: check_output_logged log_safety_event_events)
  moreover have "content_preview
                   (make_event now ''output_violation'' (take 200 r) (violations w) False)
                   = (if length r > 100 then take 100 r @ ''...'' else r)"
    by (simp add: make_event_def min_def)
  ultimately show "\<exists>e. safety_events (snd (check_output_safety now m r srcs))
                         = safety_events m @ [e]
           \<and> content_preview e = (if length r > 100 then take 100 r @ ''...'' else r)"
    by blast
qed

theorem content_preview_logged_witness:
  "map content_preview
     (safety_events (snd (check_input_safety ''t''
                            (example_manager fallback_guardrail True None)
                            (''kill '' @ replicate 100 CHR ''a''))))
     = [take 100 (''kill '' @ replicate 100 CHR ''a'') @ ''...'']
   \<and> map content_preview
       (safety_events (snd (check_output_safety ''t''
                              (example_manager fallback_guardrail True None) ''kill'' None)))
     = [''kill'']"
proof -
  have a: "InputGuardrail_validate fallback_guardrail (''kill '' @ replicate 100 CHR ''a'')
       = Inr \<lparr>valid = False,
              violations = [basic_violation ''toxic_language''
                              ''Contains potentially toxic language: kill'' ''high''],
              sanitized = ''kill '' @ replicate 100 CHR ''a''\<rparr>"
    by code_simp
  have b: "OutputGuardrail_validate fallback_guardrail ''kill'' None
     = Inr \<lparr>valid = False, violations = [harmful_violation ''violent'' [''kill'']],
            sanitized = ''kill''\<rparr>"
    by code_simp
  from content_preview_logged
         [of "example_manager fallback_guardrail True None" fallback_guardrail
             "''kill '' @ replicate 100 CHR ''a''"
             "\<lparr>valid = False,
               violations = [basic_violation ''toxic_language''
                               ''Contains potentially toxic language: kill'' ''high''],
               sanitized = ''kill '' @ replicate 100 CHR ''a''\<rparr>"
             "''t''" fallback_guardrail "''kill''" None
             "\<lparr>valid = False, violations = [harmful_violation ''violent'' [''kill'']],
               sanitized = ''kill''\<rparr>"]
       a b
  show ?thesis by (auto simp: example_manager_def)
qed

text \<open>
  The preview is not always the first 100 characters of the checked text: for a query of 105
  characters it has 103 characters, the last three being \<open>"..."\<close>.
\<close>

theorem content_preview_counterexample:
  "map content_preview
     (safety_events (snd (check_input_safety ''t''
                            (example_manager fallback_guardrail True None)
                            (''kill '' @ replicate 100 CHR ''a''))))
     = [take 100 (''kill '' @ replicate 100 CHR ''a'') @ ''...'']
   \<and> take 100 (''kill '' @ replicate 100 CHR ''a'') @ ''...''
       \<noteq> take 100 (''kill '' @ replicate 100 CHR ''a'')"
  by code_simp

lemma check_input_events:
  "safety_events (snd (check_input_safety now m q)) = safety_events m
   \<or> (\<exists>vs. safety_events (snd (check_input_safety now m q))
             = safety_events m @ [make_event now ''input_violation'' q vs False])"
proof (cases "enabled m \<and> log_events m
              \<and> (\<exists>g v. input_guardrail m = Some g \<and> InputGuardrail_validate g q = Inr v
                        \<and> violations v \<noteq> [])")
  case True
  then obtain g v where "enabled m" "log_events m" "input_guardrail m = Some g"
    "InputGuardrail_validate g q = Inr v" "violations v \<noteq> []" by blast
  then have "snd (check_input_safety now m q)
           = log_safety_event now ''input_violation'' q (violations v) False m"
    by (rule check_input_logged)
  then show ?thesis by (auto simp: log_safety_event_events)
next
  case False
  then have "snd (check_input_safety now m q) = m" by (rule check_input_not_logged)
  then show ?thesis by simp
qed

lemma check_output_events:
  "safety_events (snd (check_output_safety now m r srcs)) = safety_events m
   \<or> (\<exists>vs. safety_events (snd (check_output_safety now m r srcs))
             = safety_events m @ [make_event now ''output_violation'' (take 200 r) vs False])"
proof (cases "enabled m \<and> log_events m
              \<and> (\<exists>g v. output_guardrail m = Some g \<and> OutputGuardrail_validate g r srcs = Inr v
                        \<and> violations v \<noteq> [])")
  case True
  then obtain g v where "enabled m" "log_events m" "output_guardrail m = Some g"
    "OutputGuardrail_validate g r srcs = Inr v" "violations v \<noteq> []" by blast
  then have "snd (check_output_safety now m r srcs)
           = log_safety_event now ''output_violation'' (take 200 r) (violations v) False m"
    by (rule check_output_logged)
  then show ?thesis by (auto simp: log_safety_event_events)
next
  case False
  then have "snd (check_output_safety now m r srcs) = m" by (rule check_output_not_logged)
  then show ?thesis by simp
qed

lemma make_event_unsafe: "\<not> event_safe (make_event now ty content vs False)"
  by (simp add: make_event_def)

lemma run_call_unsafe:
  assumes "\<forall>e\<in>set (safety_events m). \<not> event_safe e"
  shows "\<forall>e\<in>set (safety_events (run_call m c)). \<not> event_safe e"
proof (cases c)
  case (CheckInput now q)
  with assms check_input_events[of now m q] show ?thesis
    by (auto simp: make_event_unsafe)
next
  case (CheckOutput now r srcs)
  with assms check_output_events[of now m r srcs] show ?thesis
    by (auto simp: make_event_unsafe)
next
  case ClearEvents
  then show ?thesis by (simp add: clear_events_def)
qed

lemma run_calls_unsafe:
  "\<forall>e\<in>set (safety_events m). \<not> event_safe e \<Longrightarrow>
   \<forall>e\<in>set (safety_events (run_calls m cs)). \<not> event_safe e"
  unfolding run_calls_def
proof (induction cs arbitrary: m)
  case Nil
  then show ?case by simp
next
  case (Cons c cs)
  from Cons.prems have "\<forall>e\<in>set (safety_events (run_call m c)). \<not> event_safe e"
    by (rule run_call_unsafe)
  then show ?case using Cons.IH by simp
qed

lemma stats_of_unsafe_log:
  assumes "\<forall>e\<in>set (safety_events m). \<not> event_safe e"
  shows "stats_violations (get_safety_stats m) = total_events (get_safety_stats m)"
    and "violation_rate (get_safety_stats m)
           = (if total_events (get_safety_stats m) > 0 then 1 else 0)"
proof -
  from assms have "filter (\<lambda>e. \<not> event_safe e) (safety_events m) = safety_events m"
    by (simp add: filter_id_conv)
  then show "stats_violations (get_safety_stats m) = total_events (get_safety_stats m)"
    and "violation_rate (get_safety_stats m)
           = (if total_events (get_safety_stats m) > 0 then 1 else 0)"
    by (simp_all add: get_safety_stats_def Let_def)
qed

text \<open>
  C10. After any sequence of \<open>check_input_safety\<close>, \<open>check_output_safety\<close> and
  \<open>clear_events\<close> calls on a manager that started with an empty event list, every logged
  event has \<open>safe = False\<close>; so \<open>get_safety_stats\<close> reports as many violations as events,
  and a violation rate of 1 when there is an event and of 0 when there is none.
\<close>

theorem logged_events_unsafe:
  assumes "safety_events m = []"
  shows "(\<forall>e\<in>set (safety_events (run_calls m cs)). \<not> event_safe e)
       \<and> stats_violations (get_safety_stats (run_calls m cs))
           = total_events (get_safety_stats (run_calls m cs))
       \<and> violation_rate (get_safety_stats (run_calls m cs))
           = (if total_events (get_safety_stats (run_calls m cs)) > 0 then 1 else 0)"
proof -
  from assms have "\<forall>e\<in>set (safety_events m). \<not> event_safe e" by simp
  then have inv: "\<forall>e\<in>set (safety_events (run_calls m cs)). \<not> event_safe e"
    by (rule run_calls_unsafe)
  from inv stats_of_unsafe_log[OF inv] show ?thesis by blast
qed

theorem logged_events_unsafe_witness:
  "safety_events (example_manager fallback_guardrail True None) = []
   \<and> map event_safe
       (safety_events (run_calls (example_manager fallback_guardrail True None)
                         [CheckInput ''t1'' ''hi'', CheckInput ''t2'' ''hello world'',
                          CheckOutput ''t3'' ''kill'' None]))
     = [False, False]
   \<and> total_events (get_safety_stats
         (run_calls (example_manager fallback_guardrail True None)
            [CheckInput ''t1'' ''hi'', CheckInput ''t2'' ''hello world'',
             CheckOutput ''t3'' ''kill'' None])) = 2
   \<and> stats_violations (get_safety_stats
         (run_calls (example_manager fallback_guardrail True None)
            [CheckInput ''t1'' ''hi'', CheckInput ''t2'' ''hello world'',
             CheckOutput ''t3'' ''kill'' None])) = 2
   \<and> violation_rate (get_safety_stats
         (run_calls (example_manager fallback_guardrail True None)
            [CheckInput ''t1'' ''hi'', CheckInput ''t2'' ''hello world'',
             CheckOutput ''t3'' ''kill'' None])) = 1"
proof -
  have empty: "safety_events (example_manager fallback_guardrail True None) = []"
    by (simp add: example_manager_def)
  have flags: "map event_safe
       (safety_events (run_calls (example_manager fallback_guardrail True None)
                         [CheckInput ''t1'' ''hi'', CheckInput ''t2'' ''hello world'',
                          CheckOutput ''t3'' ''kill'' None]))
     = [False, False]"
    by code_simp
  have total: "total_events (get_safety_stats
         (run_calls (example_manager fallback_guardrail True None)
            [CheckInput ''t1'' ''hi'', CheckInput ''t2'' ''hello world'',
             CheckOutput ''t3'' ''kill'' None])) = 2"
    by code_simp
  from logged_events_unsafe
         [OF empty, of "[CheckInput ''t1'' ''hi'', CheckInput ''t2'' ''hello world'',
                         CheckOutput ''t3'' ''kill'' None]"]
       empty flags total
  show ?thesis by simp
qed

text \<open>
  C5. \<open>get_safety_stats\<close> after one \<open>check_input_safety\<close> call that logged an event: one
  event in total, counted as a violation, and yet neither an input check nor an output check,
  because the event carries the type \<open>"input_violation"\<close> and the counts look for
  \<open>"input"\<close> and \<open>"output"\<close>.
\<close>

theorem stats_after_input_violation:
  "get_safety_stats (snd (check_input_safety ''t''
                            (example_manager fallback_guardrail True None) ''hi''))
     = \<lparr>total_events = 1, input_checks = 0, output_checks = 0, stats_violations = 1,
        violation_rate = 1\<rparr>
   \<and> map event_type (safety_events (snd (check_input_safety ''t''
                            (example_manager fallback_guardrail True None) ''hi'')))
     = [''input_violation'']"
  by code_simp

section \<open>Queries without a listed phrase\<close>









section \<open>Responses checked without sources\<close>

lemma check_pii_validators:
  assumes "x \<in> set (check_pii text)"
  shows "validator x = ''pii''"
proof -
  from assms obtain ty pat where
    "x \<in> set (let ms = findall pat text in if ms \<noteq> [] then [pii_violation ty ms] else [])"
    by (auto simp: check_pii_def)
  then show ?thesis
    by (simp add: Let_def pii_violation_def split: if_splits)
qed

lemma check_harmful_validators:
  assumes "check_harmful_content g text = Inr vs" "x \<in> set vs"
  shows "validator x = ''harmful_content''"
proof (cases "prohibited_categories g")
  case None
  with assms show ?thesis by (simp add: check_harmful_content_def)
next
  case (Some cats)
  with assms obtain cat found where "x = harmful_violation cat found"
    by (auto simp: check_harmful_content_def Let_def split: if_splits)
  then show ?thesis by (simp add: harmful_violation_def)
qed

lemma check_bias_validators:
  assumes "x \<in> set (check_bias text)"
  shows "validator x = ''bias_detection''"
proof -
  from assms obtain ty found where "x = bias_violation ty found"
    by (auto simp: check_bias_def Let_def split: if_splits)
  then show ?thesis by (simp add: bias_violation_def)
qed

lemma guard_violation_validator: "validator (guard_violation err) = ''guardrails_ai''"
  by (simp add: guard_violation_def basic_violation_def)

lemma fallback_output_validators:
  assumes "fallback_output_checks g text = Inr vs" "x \<in> set vs"
  shows "validator x = ''pii'' \<or> validator x = ''harmful_content''"
proof (cases "check_harmful_content g text")
  case (Inl e)
  with assms show ?thesis by (simp add: fallback_output_checks_def)
next
  case (Inr hs)
  with assms have "x \<in> set (check_pii text) \<or> x \<in> set hs"
    by (auto simp: fallback_output_checks_def)
  with Inr show ?thesis
    using check_pii_validators check_harmful_validators by blast
qed

lemma content_checks_validators:
  assumes "content_checks g text = Inr vs" "x \<in> set vs"
  shows "validator x = ''guardrails_ai'' \<or> validator x = ''pii''
         \<or> validator x = ''harmful_content''"
proof (cases "guard g")
  case None
  with assms show ?thesis
    using fallback_output_validators by (auto simp: content_checks_def)
next
  case (Some f)
  show ?thesis
  proof (cases "f text")
    case Passed
    with Some assms show ?thesis by (simp add: content_checks_def)
  next
    case (Failed spans)
    with Some assms show ?thesis
      by (auto simp: content_checks_def guard_violation_validator)
  next
    case (Raised spans)
    show ?thesis
    proof (cases "fallback_output_checks g text")
      case (Inl e)
      with Some Raised assms show ?thesis by (simp add: content_checks_def)
    next
      case (Inr fs)
      with Some Raised assms have "x \<in> set (map guard_violation spans) \<or> x \<in> set fs"
        by (auto simp: content_checks_def)
      with Inr show ?thesis
        using fallback_output_validators guard_violation_validator by auto
    qed
  qed
qed

lemma consistency_empty_sources:
  "consistency_violations r (Some []) = consistency_violations r None"
  by (simp add: consistency_violations_def)

lemma validate_empty_sources:
  "OutputGuardrail_validate g r (Some []) = OutputGuardrail_validate g r None"
  by (simp only: OutputGuardrail_validate_def consistency_empty_sources)

lemma validate_without_sources_validators:
  assumes "OutputGuardrail_validate g r None = Inr v" "x \<in> set (violations v)"
  shows "validator x \<noteq> ''factual_consistency''"
proof (cases "g_enabled g")
  case False
  with assms show ?thesis by (auto simp: OutputGuardrail_validate_def)
next
  case True
  show ?thesis
  proof (cases "content_checks g r")
    case (Inl e)
    with True assms show ?thesis by (simp add: OutputGuardrail_validate_def)
  next
    case (Inr vs1)
    with True assms have "x \<in> set vs1 \<or> x \<in> set (check_bias r)"
      by (auto simp: OutputGuardrail_validate_def output_verdict_def
                     consistency_violations_def)
    then show ?thesis
      using content_checks_validators[OF Inr] check_bias_validators by fastforce
  qed
qed

lemma check_output_violations:
  assumes "result_violations (fst (check_output_safety now m r srcs)) = Some vs" "x \<in> set vs"
  shows "\<exists>g v. output_guardrail m = Some g \<and> OutputGuardrail_validate g r srcs = Inr v
               \<and> x \<in> set (violations v)"
proof (cases "enabled m")
  case False
  with assms show ?thesis by (simp add: check_output_disabled)
next
  case en: True
  show ?thesis
  proof (cases "output_guardrail m")
    case None
    with en assms show ?thesis by (auto simp: check_output_no_guardrail)
  next
    case (Some g)
    show ?thesis
    proof (cases "OutputGuardrail_validate g r srcs")
      case (Inl e)
      with en Some assms show ?thesis by (auto simp: check_output_raised)
    next
      case (Inr v)
      with en Some assms show ?thesis
        by (cases "policy_response m r (valid v) (sanitized v)")
           (auto simp: check_output_validated)
    qed
  qed
qed

text \<open>
  C8. \<open>check_output_safety\<close> with an empty list of sources does what it does with no
  sources at all, and none of the violations it returns comes from the factual-consistency
  check, whatever the response is; the same holds for the verdict of
  \<open>OutputGuardrail.validate\<close>.
\<close>

theorem empty_sources_skip_consistency:
  "check_output_safety now m r (Some []) = check_output_safety now m r None
   \<and> (result_violations (fst (check_output_safety now m r (Some []))) = Some vs \<longrightarrow>
        (\<forall>x\<in>set vs. validator x \<noteq> ''factual_consistency''))
   \<and> (OutputGuardrail_validate g r (Some []) = Inr v \<longrightarrow>
        (\<forall>x\<in>set (violations v). validator x \<noteq> ''factual_consistency''))"
proof (intro conjI impI ballI)
  show "check_output_safety now m r (Some []) = check_output_safety now m r None"
    by (simp only: check_output_safety_def validate_empty_sources)
next
  fix x
  assume "result_violations (fst (check_output_safety now m r (Some []))) = Some vs"
    and "x \<in> set vs"
  then obtain g' v' where "OutputGuardrail_validate g' r (Some []) = Inr v'"
    "x \<in> set (violations v')"
    using check_output_violations by blast
  then show "validator x \<noteq> ''factual_consistency''"
    using validate_without_sources_validators by (simp add: validate_empty_sources)
next
  fix x
  assume "OutputGuardrail_validate g r (Some []) = Inr v" and "x \<in> set (violations v)"
  then show "validator x \<noteq> ''factual_consistency''"
    using validate_without_sources_validators by (simp add: validate_empty_sources)
qed

theorem empty_sources_skip_consistency_witness:
  "result_violations (fst (check_output_safety ''t''
                             (example_manager fallback_guardrail True None)
                             ''maybe kill'' (Some [])))
     = Some [harmful_violation ''violent'' [''kill'']]
   \<and> validator (harmful_violation ''violent'' [''kill'']) \<noteq> ''factual_consistency''
   \<and> map validator (check_factual_consistency ''maybe kill''
                         [\<lparr>title = ''A'', url = ''http://a''\<rparr>])
     = [''factual_consistency'', ''factual_consistency'']"
proof -
  have a: "result_violations (fst (check_output_safety ''t''
                             (example_manager fallback_guardrail True None)
                             ''maybe kill'' (Some [])))
     = Some [harmful_violation ''violent'' [''kill'']]"
    by code_simp
  have b: "map validator (check_factual_consistency ''maybe kill''
                         [\<lparr>title = ''A'', url = ''http://a''\<rparr>])
     = [''factual_consistency'', ''factual_consistency'']"
    by code_simp
  from empty_sources_skip_consistency
         [where now = "''t''" and m = "example_manager fallback_guardrail True None"
            and r = "''maybe kill''" and vs = "[harmful_violation ''violent'' [''kill'']]"]
       a b
  show ?thesis by simp
qed

end
